theory Spec2Isabelle
  imports
    Complex_Main
    "HOL-Library.AList"
    "HOL-Library.Sublist"
    "HOL-Library.Char_ord"
    "HOL-Library.List_Lexorder"
begin

section \<open>The JavaScript values the worker computes with\<close>

text \<open>
  The worker (\<^verbatim>\<open>src/index.ts\<close>) is TypeScript on Cloudflare Workers. Its numbers are
  JavaScript numbers. They are modelled as mathematical reals, with the three values of a
  JavaScript number that are not real numbers added where the code can meet them
  (\<open>NaN\<close> and the two infinities come out of \<^verbatim>\<open>Number(string)\<close>). Rounding of
  binary floating point is not modelled: arithmetic is exact.
\<close>

datatype jsnum = Num real | PosInf | NegInf | NaN

text \<open>\<^verbatim>\<open>Number.isFinite(v)\<close>\<close>

fun isFinite :: "jsnum \<Rightarrow> bool" where
  "isFinite (Num x) = True"
| "isFinite PosInf = False"
| "isFinite NegInf = False"
| "isFinite NaN = False"

text \<open>\<^verbatim>\<open>a >= b\<close> for a finite \<open>a\<close>: every comparison with \<open>NaN\<close> is false.\<close>

fun js_ge :: "real \<Rightarrow> jsnum \<Rightarrow> bool" where
  "js_ge a (Num b) = (a \<ge> b)"
| "js_ge a PosInf = False"
| "js_ge a NegInf = True"
| "js_ge a NaN = False"

subsection \<open>\<^verbatim>\<open>Number(string)\<close>\<close>

text \<open>
  The conversion of a string to a number (ECMAScript \<open>StringToNumber\<close>): white space is
  trimmed on both sides; the empty string is \<open>0\<close>; then either a binary, octal or
  hexadecimal integer literal without sign, or an optionally signed \<^verbatim>\<open>Infinity\<close>, or an
  optionally signed decimal literal with optional fraction and exponent; every other
  string is \<open>NaN\<close>. Strings are taken over ASCII.
\<close>

definition is_ws :: "char \<Rightarrow> bool" where
  "is_ws c = (c \<in> set [CHR 0x09, CHR 0x0A, CHR 0x0B, CHR 0x0C, CHR 0x0D, CHR 0x20])"

definition trim :: "string \<Rightarrow> string" where
  "trim s = rev (dropWhile is_ws (rev (dropWhile is_ws s)))"

definition digit_of :: "char \<Rightarrow> nat option" where
  "digit_of c =
     (let n = (of_char c :: nat) in
      if 48 \<le> n \<and> n \<le> 57 then Some (n - 48)
      else if 97 \<le> n \<and> n \<le> 102 then Some (n - 87)
      else if 65 \<le> n \<and> n \<le> 70 then Some (n - 55)
      else None)"

definition is_digit :: "nat \<Rightarrow> char \<Rightarrow> bool" where
  "is_digit radix c = (case digit_of c of None \<Rightarrow> False | Some d \<Rightarrow> d < radix)"

definition digits_val :: "nat \<Rightarrow> string \<Rightarrow> nat" where
  "digits_val radix s = foldl (\<lambda>a c. radix * a + (case digit_of c of None \<Rightarrow> 0 | Some d \<Rightarrow> d)) 0 s"

text \<open>A non-empty run of digits of the radix, and nothing else.\<close>

definition radix_literal :: "nat \<Rightarrow> string \<Rightarrow> real option" where
  "radix_literal radix s =
     (if s \<noteq> [] \<and> list_all (is_digit radix) s then Some (real (digits_val radix s)) else None)"

text \<open>\<open>SignedInteger\<close> of an exponent part: optional sign, then at least one digit.\<close>

definition signed_integer :: "string \<Rightarrow> int option" where
  "signed_integer s =
     (case s of
        [] \<Rightarrow> None
      | c # r \<Rightarrow>
          (let (neg, ds) = (if c = CHR ''-'' then (True, r) else if c = CHR ''+'' then (False, r) else (False, s))
           in if ds \<noteq> [] \<and> list_all (is_digit 10) ds
              then Some (if neg then - int (digits_val 10 ds) else int (digits_val 10 ds))
              else None))"

definition scale10 :: "real \<Rightarrow> int \<Rightarrow> real" where
  "scale10 m e = (if e \<ge> 0 then m * 10 ^ nat e else m / 10 ^ nat (- e))"

text \<open>\<open>ExponentPart\<close>, optional: what is left after the mantissa.\<close>

definition exponent_part :: "string \<Rightarrow> int option" where
  "exponent_part s =
     (case s of
        [] \<Rightarrow> Some 0
      | c # r \<Rightarrow> if c = CHR ''e'' \<or> c = CHR ''E'' then signed_integer r else None)"

text \<open>\<open>StrUnsignedDecimalLiteral\<close> without the \<^verbatim>\<open>Infinity\<close> alternative.\<close>

definition unsigned_decimal :: "string \<Rightarrow> real option" where
  "unsigned_decimal s =
     (let ip = takeWhile (is_digit 10) s; r = dropWhile (is_digit 10) s;
          has_dot = (r \<noteq> [] \<and> hd r = CHR ''.'');
          r1 = (if has_dot then tl r else r);
          fp = (if has_dot then takeWhile (is_digit 10) r1 else []);
          r2 = (if has_dot then dropWhile (is_digit 10) r1 else r1)
      in if ip = [] \<and> fp = [] then None
         else (case exponent_part r2 of
                 None \<Rightarrow> None
               | Some e \<Rightarrow>
                   Some (scale10 (real (digits_val 10 ip) + real (digits_val 10 fp) / 10 ^ length fp) e)))"

definition str_decimal :: "string \<Rightarrow> jsnum" where
  "str_decimal s =
     (let (neg, u) = (case s of
                        [] \<Rightarrow> (False, s)
                      | c # r \<Rightarrow> if c = CHR ''-'' then (True, r) else if c = CHR ''+'' then (False, r) else (False, s))
      in if u = ''Infinity'' then (if neg then NegInf else PosInf)
         else (case unsigned_decimal u of
                 None \<Rightarrow> NaN
               | Some x \<Rightarrow> Num (if neg then - x else x)))"

definition Number :: "string \<Rightarrow> jsnum" where
  "Number str =
     (let s = trim str in
      if s = [] then Num 0
      else if take 2 s \<in> set [''0x'', ''0X''] then
        (case radix_literal 16 (drop 2 s) of None \<Rightarrow> NaN | Some x \<Rightarrow> Num x)
      else if take 2 s \<in> set [''0o'', ''0O''] then
        (case radix_literal 8 (drop 2 s) of None \<Rightarrow> NaN | Some x \<Rightarrow> Num x)
      else if take 2 s \<in> set [''0b'', ''0B''] then
        (case radix_literal 2 (drop 2 s) of None \<Rightarrow> NaN | Some x \<Rightarrow> Num x)
      else str_decimal s)"

subsection \<open>\<^verbatim>\<open>Number(x.toFixed(d))\<close>\<close>

text \<open>
  \<^verbatim>\<open>x.toFixed(d)\<close> prints the integer \<open>n\<close> for which \<open>n / 10^d\<close> is nearest to \<open>x\<close>, the
  larger \<open>n\<close> on a tie, after taking the sign off a negative \<open>x\<close>; the code reads the
  digits back with \<^verbatim>\<open>Number\<close>. The composition is a rounding to \<open>d\<close> decimals.
\<close>

definition toFixed :: "nat \<Rightarrow> real \<Rightarrow> real" where
  "toFixed d x =
     (if x < 0 then - (real_of_int \<lfloor>(- x) * 10 ^ d + 1 / 2\<rfloor> / 10 ^ d)
      else real_of_int \<lfloor>x * 10 ^ d + 1 / 2\<rfloor> / 10 ^ d)"

subsection \<open>\<^verbatim>\<open>Array.prototype.slice\<close>\<close>

text \<open>A negative index counts from the end; both ends are clamped to the array.\<close>

definition rel_index :: "int \<Rightarrow> nat \<Rightarrow> nat" where
  "rel_index i len = (if i < 0 then nat (max (int len + i) 0) else min (nat i) len)"

definition slice :: "int \<Rightarrow> int \<Rightarrow> 'a list \<Rightarrow> 'a list" where
  "slice start end xs =
     (let k = rel_index start (length xs); f = rel_index end (length xs)
      in take (f - k) (drop k xs))"

definition slice_from :: "int \<Rightarrow> 'a list \<Rightarrow> 'a list" where
  "slice_from start xs = drop (rel_index start (length xs)) xs"

text \<open>
  \<^verbatim>\<open>str.replace(pat, rep)\<close> with a string pattern: the first occurrence only.
\<close>

fun replace_first :: "string \<Rightarrow> string \<Rightarrow> string \<Rightarrow> string" where
  "replace_first pat rep [] = (if pat = [] then rep else [])"
| "replace_first pat rep (c # cs) =
     (if prefix pat (c # cs) then rep @ drop (length pat) (c # cs)
      else c # replace_first pat rep cs)"

text \<open>\<^verbatim>\<open>Array.from(new Set(xs))\<close>: the first occurrence of each element, in order.\<close>

fun uniq :: "'a list \<Rightarrow> 'a list \<Rightarrow> 'a list" where
  "uniq seen [] = []"
| "uniq seen (x # xs) = (if x \<in> set seen then uniq seen xs else x # uniq (x # seen) xs)"

text \<open>A string is falsy when it is \<^verbatim>\<open>undefined\<close> or empty.\<close>

definition falsy :: "string option \<Rightarrow> bool" where
  "falsy s = (s = None \<or> s = Some [])"

section \<open>Data model\<close>

text \<open>An entry of the series, \<^verbatim>\<open>{ ts: string; pm25: number }\<close>.\<close>

record point =
  ts :: string
  pm25 :: real

text \<open>
  What the key-value store holds under a key, read back with \<^verbatim>\<open>get(key, 'json')\<close>:
  a number (a per-hour reading), an array (the cached series, its elements at the declared
  type of the code), or any other JSON value. Writing with \<^verbatim>\<open>JSON.stringify\<close> and
  reading with \<^verbatim>\<open>'json'\<close> are taken to be inverse on these values.
\<close>

datatype json = JNumber real | JSeries "point list" | JOther

text \<open>
  The message of a notification, by its template and the values interpolated into it:
  the spike alert (value, timestamp, baseline), the absolute alert (value, timestamp,
  threshold) and the forced alert (value, timestamp).
\<close>

datatype alert =
    SpikeAlert real string real
  | AbsoluteAlert real string jsnum
  | ForcedAlert real string

text \<open>
  One invocation of \<^verbatim>\<open>telegram(env, text)\<close>: the message was posted to the Bot API, or
  the call returned at its guard because a credential is missing.
\<close>

datatype notice = Posted alert | Skipped alert

text \<open>The bodies of the JSON responses of the handlers modelled here.\<close>

record forecast_payload =
  hour :: string
  pm25_mean :: real
  pm25_low :: real
  pm25_high :: real
  samples :: nat

datatype body =
    ErrorBody string
  | ForecastBody forecast_payload
  | TimeseriesBody nat "point list"
  | RulesBody jsnum string
  | ForceAlertBody real string

text \<open>A response: HTTP status and body.\<close>

datatype response = Response nat body

text \<open>
  The state the worker acts on: the key-value namespace \<^verbatim>\<open>AQI_KV\<close> (an association
  list: \<^verbatim>\<open>list\<close> returns the keys in the store's order, which the code does not rely
  on), the invocations of the notifier so far, and the edge cache \<^verbatim>\<open>caches.default\<close>
  keyed by request URL. The store is read and written sequentially, each operation
  seeing the writes before it; \<^verbatim>\<open>list\<close> returns every key with the prefix.
\<close>

record world =
  kv :: "(string \<times> json) list"
  notices :: "notice list"
  edge :: "(string \<times> response) list"

record env =
  TELEGRAM_TOKEN :: "string option"
  TELEGRAM_CHAT_ID :: "string option"
  OPENAQ_API_KEY :: "string option"
  ALERT_THRESHOLD_PM25 :: "string option"

definition SERIES_KEY :: string where
  "SERIES_KEY = ''series:last72''"

subsection \<open>The key-value store\<close>

definition kv_get :: "string \<Rightarrow> world \<Rightarrow> json option" where
  "kv_get k w = map_of (kv w) k"

definition kv_put :: "string \<Rightarrow> json \<Rightarrow> world \<Rightarrow> world" where
  "kv_put k v w = w\<lparr>kv := AList.update k v (kv w)\<rparr>"

definition kv_delete :: "string \<Rightarrow> world \<Rightarrow> world" where
  "kv_delete k w = w\<lparr>kv := AList.delete k (kv w)\<rparr>"

definition kv_list :: "string \<Rightarrow> world \<Rightarrow> string list" where
  "kv_list pre w = filter (prefix pre) (map fst (kv w))"

section \<open>Helpers of the worker\<close>

definition stddev :: "real list \<Rightarrow> real" where
  "stddev arr =
     (if length arr < 2 then 0
      else
        (let m = foldl (\<lambda>a b. a + b) 0 arr / real (length arr);
             v = foldl (\<lambda>s x. s + (x - m) ^ 2) 0 arr / real (length arr)
         in sqrt v))"

definition telegram :: "env \<Rightarrow> alert \<Rightarrow> world \<Rightarrow> world" where
  "telegram e text w =
     (if falsy (TELEGRAM_TOKEN e) \<or> falsy (TELEGRAM_CHAT_ID e)
      then w\<lparr>notices := notices w @ [Skipped text]\<rparr>
      else w\<lparr>notices := notices w @ [Posted text]\<rparr>)"

definition latestAtOrBefore :: "string list \<Rightarrow> string \<Rightarrow> string option" where
  "latestAtOrBefore keys targetIso =
     (let prior = sort (filter (\<lambda>k. k \<le> targetIso) keys)
      in if prior \<noteq> [] then Some (last prior) else None)"

section \<open>The hourly reducer: \<^verbatim>\<open>fetchOpenAQAvgPM25\<close>\<close>

text \<open>
  What the OpenAQ API answers during one pass is an input of the model. A request
  throws, answers with a status that is not ok, or answers with a body; of a body the
  model keeps what the code extracts from it:
  \<^item> of the locations query, the sensor ids pushed to \<^verbatim>\<open>sensorIds\<close>;
  \<^item> of a sensor's hours query, \<^verbatim>\<open>null\<close> when the request fails or is not ok, else its
    rows;
  \<^item> of a row, the timestamp field the code reads (absent when no candidate field holds
    one) and \<^verbatim>\<open>Number(row?.value)\<close>.
  Bodies are taken to have the shape the code's optional chaining expects.
\<close>

datatype 'a fetched = Threw | NotOk | Ok 'a

record row =
  row_ts :: "string option"
  row_value :: jsnum

record upstream =
  locations :: "string list fetched"
  sensor_hours :: "string \<Rightarrow> row list option"
  measurements :: "row list fetched"

type_synonym bucket = "(string \<times> real list) list"

text \<open>\<^verbatim>\<open>if (!b[k]) b[k] = []; b[k].push(v)\<close>\<close>

definition push_bucket :: "string \<Rightarrow> real \<Rightarrow> bucket \<Rightarrow> bucket" where
  "push_bucket k v b =
     (case map_of b k of
        None \<Rightarrow> AList.update k [v] b
      | Some vs \<Rightarrow> AList.update k (vs @ [v]) b)"

text \<open>The loop over the rows of one sensor (lines 126 to 132).\<close>

fun bucket_hours :: "row list \<Rightarrow> bucket \<Rightarrow> bucket" where
  "bucket_hours [] b = b"
| "bucket_hours (r # rs) b =
     (if falsy (row_ts r) \<or> \<not> isFinite (row_value r) then bucket_hours rs b
      else (case (row_ts r, row_value r) of
              (Some t, Num v) \<Rightarrow> bucket_hours rs (push_bucket t v b)
            | _ \<Rightarrow> bucket_hours rs b))"

text \<open>The loop over the result arrays of all sensors; a \<^verbatim>\<open>null\<close> array is skipped.\<close>

fun bucket_sensors :: "row list option list \<Rightarrow> bucket \<Rightarrow> bucket" where
  "bucket_sensors [] b = b"
| "bucket_sensors (None # rest) b = bucket_sensors rest b"
| "bucket_sensors (Some rows # rest) b = bucket_sensors rest (bucket_hours rows b)"

text \<open>
  The loop over raw measurements (lines 151 to 158). \<open>hourOf\<close> is
  \<^verbatim>\<open>isoHour(new Date(t))\<close>, \<open>None\<close> where the date is invalid and \<^verbatim>\<open>toISOString\<close>
  throws; the exception leaves the loop and the \<^verbatim>\<open>try\<close> block.
\<close>

fun bucket_measurements :: "(string \<Rightarrow> string option) \<Rightarrow> row list \<Rightarrow> bucket \<Rightarrow> bucket option" where
  "bucket_measurements hourOf [] b = Some b"
| "bucket_measurements hourOf (r # rs) b =
     (if \<not> isFinite (row_value r) \<or> falsy (row_ts r) then bucket_measurements hourOf rs b
      else (case (row_ts r, row_value r) of
              (Some t, Num v) \<Rightarrow>
                (case hourOf t of
                   None \<Rightarrow> None
                 | Some key \<Rightarrow> bucket_measurements hourOf rs (push_bucket key v b))
            | _ \<Rightarrow> bucket_measurements hourOf rs b))"

text \<open>
  The end of both strategies: the latest bucket at or before the target hour and the
  mean of its values, rounded to two decimals; \<open>None\<close> when the code falls through.
\<close>

definition chosen_mean :: "bucket \<Rightarrow> string \<Rightarrow> (string \<times> real) option" where
  "chosen_mean b hourIso =
     (case latestAtOrBefore (map fst b) hourIso of
        None \<Rightarrow> None
      | Some chosenTs \<Rightarrow>
          if chosenTs = [] then None
          else (case map_of b chosenTs of
                  None \<Rightarrow> None
                | Some vals \<Rightarrow>
                    if vals = [] then None
                    else Some (chosenTs, toFixed 2 (foldl (\<lambda>a b. a + b) 0 vals / real (length vals)))))"

text \<open>Lines 107 to 143: \<open>None\<close> when the block ends without returning.\<close>

definition primary_strategy :: "upstream \<Rightarrow> string \<Rightarrow> (string \<times> real) option" where
  "primary_strategy up hourIso =
     (case locations up of
        Ok sensorIds \<Rightarrow>
          (let unique = slice 0 25 (uniq [] sensorIds);
               resultsArrays = map (sensor_hours up) unique;
               byTs = bucket_sensors resultsArrays []
           in chosen_mean byTs hourIso)
      | _ \<Rightarrow> None)"

text \<open>Lines 144 to 168: \<open>None\<close> when the function goes on to return no value.\<close>

definition fallback_strategy ::
  "(string \<Rightarrow> string option) \<Rightarrow> upstream \<Rightarrow> string \<Rightarrow> (string \<times> real) option" where
  "fallback_strategy hourOf up hourIso =
     (case measurements up of
        Ok results \<Rightarrow>
          (case bucket_measurements hourOf results [] of
             None \<Rightarrow> None
           | Some b \<Rightarrow> chosen_mean b hourIso)
      | _ \<Rightarrow> None)"

text \<open>
  \<open>hourIso\<close> is the last full hour before now, as \<^verbatim>\<open>isoHour\<close> prints it. The result is
  \<^verbatim>\<open>{ ts, value }\<close>, \<open>value\<close> being \<open>None\<close> for \<^verbatim>\<open>undefined\<close>.
\<close>

definition fetchOpenAQAvgPM25 ::
  "(string \<Rightarrow> string option) \<Rightarrow> upstream \<Rightarrow> string \<Rightarrow> string \<times> real option" where
  "fetchOpenAQAvgPM25 hourOf up hourIso =
     (case primary_strategy up hourIso of
        Some (t, v) \<Rightarrow> (t, Some v)
      | None \<Rightarrow>
          (case fallback_strategy hourOf up hourIso of
             Some (t, v) \<Rightarrow> (t, Some v)
           | None \<Rightarrow> (hourIso, None)))"

section \<open>The series store\<close>

text \<open>The loop of \<^verbatim>\<open>rebuildSeries\<close> over the keys and the values read for them.\<close>

fun collect :: "(string \<times> json option) list \<Rightarrow> point list" where
  "collect [] = []"
| "collect ((k, v) # rest) =
     (case v of
        Some (JNumber x) \<Rightarrow> \<lparr>ts = replace_first ''pm25:'' [] k, pm25 = x\<rparr> # collect rest
      | _ \<Rightarrow> collect rest)"

definition rebuildSeries :: "world \<Rightarrow> point list \<times> world" where
  "rebuildSeries w =
     (let keys = sort (kv_list ''pm25:'' w);
          last = slice_from (- 72) keys;
          values = map (\<lambda>k. kv_get k w) last;
          out = collect (zip last values)
      in (out, kv_put SERIES_KEY (JSeries out) w))"

definition getSeries :: "world \<Rightarrow> point list \<times> world" where
  "getSeries w =
     (case kv_get SERIES_KEY w of
        Some (JSeries cached) \<Rightarrow> (cached, w)
      | _ \<Rightarrow> rebuildSeries w)"

section \<open>Ingestion\<close>

text \<open>Lines 195 to 201 of \<^verbatim>\<open>ingest\<close>: store the reading, prune, rebuild the cache.\<close>

definition keep :: int where
  "keep = 24 * 60"

text \<open>Line 195: the reading is stored when the pass produced a number.\<close>

definition persist :: "string \<times> real option \<Rightarrow> world \<Rightarrow> world" where
  "persist r w =
     (case snd r of
        Some v \<Rightarrow> kv_put (''pm25:'' @ fst r) (JNumber v) w
      | None \<Rightarrow> w)"

text \<open>Lines 196 to 200: the oldest keys beyond \<open>keep\<close> are deleted.\<close>

definition prune :: "world \<Rightarrow> world" where
  "prune w =
     (let keys = sort (kv_list ''pm25:'' w);
          old = slice 0 (max 0 (int (length keys) - keep)) keys
      in fold kv_delete old w)"

definition append_step :: "string \<times> real option \<Rightarrow> world \<Rightarrow> world" where
  "append_step r w = snd (rebuildSeries (prune (persist r w)))"

text \<open>
  \<^verbatim>\<open>Number(env.ALERT_THRESHOLD_PM25 ?? '90')\<close>, as \<^verbatim>\<open>ingest\<close> and the rules handler
  both compute it.
\<close>

definition threshold :: "env \<Rightarrow> jsnum" where
  "threshold e = Number (case ALERT_THRESHOLD_PM25 e of None \<Rightarrow> ''90'' | Some s \<Rightarrow> s)"

text \<open>Lines 204 to 213 of \<^verbatim>\<open>ingest\<close>: the two alert rules, for a numeric value.\<close>

definition detect :: "env \<Rightarrow> string \<Rightarrow> real \<Rightarrow> world \<Rightarrow> world" where
  "detect e t val w =
     (let (series, w1) = getSeries w;
          hist = map pm25 (slice (- 6) (- 1) series);
          base = (if hist \<noteq> [] then foldl (\<lambda>a b. a + b) 0 hist / real (length hist) else val);
          w2 = (if val > base + max 10 (stddev hist * 2)
                then telegram e (SpikeAlert val t base) w1 else w1);
          abs = threshold e
      in if js_ge val abs then telegram e (AbsoluteAlert val t abs) w2 else w2)"

definition ingest ::
  "(string \<Rightarrow> string option) \<Rightarrow> env \<Rightarrow> upstream \<Rightarrow> string \<Rightarrow> world \<Rightarrow> (string \<times> real option) \<times> world" where
  "ingest hourOf e up hourIso w =
     (let r = fetchOpenAQAvgPM25 hourOf up hourIso;
          w1 = append_step r w
      in (r, (case snd r of Some v \<Rightarrow> detect e (fst r) v w1 | None \<Rightarrow> w1)))"

section \<open>Request handlers\<close>

text \<open>
  \<open>url\<close> is the request URL, the key of the edge cache; \<open>now\<close> is \<^verbatim>\<open>isoHour()\<close> at the
  time of the request. The constant fields of the payloads (\<^verbatim>\<open>city\<close>, \<^verbatim>\<open>method\<close>) are
  left out. The write to the edge cache, which the code hands to \<^verbatim>\<open>waitUntil\<close>, is
  done at once; entries are not aged.
\<close>

definition forecast :: "string \<Rightarrow> string \<Rightarrow> world \<Rightarrow> response \<times> world" where
  "forecast url now w =
     (case map_of (edge w) url of
        Some hit \<Rightarrow> (hit, w)
      | None \<Rightarrow>
          (let (series, w1) = getSeries w in
           if series = [] then (Response 503 (ErrorBody ''no data yet''), w1)
           else
             (let last24 = slice_from (- 24) series;
                  vals = map pm25 last24;
                  mean = foldl (\<lambda>a b. a + b) 0 vals / real (length vals);
                  s = stddev vals;
                  payload = \<lparr>hour = now, pm25_mean = toFixed 1 mean,
                             pm25_low = toFixed 1 (max 0 (mean - s)),
                             pm25_high = toFixed 1 (mean + s), samples = length vals\<rparr>;
                  res = Response 200 (ForecastBody payload)
              in (res, w1\<lparr>edge := AList.update url res (edge w1)\<rparr>))))"

definition timeseries :: "string \<Rightarrow> world \<Rightarrow> response \<times> world" where
  "timeseries url w =
     (case map_of (edge w) url of
        Some hit \<Rightarrow> (hit, w)
      | None \<Rightarrow>
          (let (series, w1) = getSeries w;
               res = Response 200 (TimeseriesBody (length series) series)
           in (res, w1\<lparr>edge := AList.update url res (edge w1)\<rparr>)))"

definition alerts_rules :: "env \<Rightarrow> response" where
  "alerts_rules e =
     Response 200 (RulesBody (threshold e) ''value > baseline + max(10, 2*stddev(last 5 hours))'')"

text \<open>\<^verbatim>\<open>Number.isFinite(value)\<close> for a value that may be \<^verbatim>\<open>undefined\<close>.\<close>

fun isFiniteOpt :: "jsnum option \<Rightarrow> real option" where
  "isFiniteOpt (Some (Num x)) = Some x"
| "isFiniteOpt _ = None"

text \<open>
  \<^verbatim>\<open>POST /tasks/force-alert\<close>; \<open>q\<close> is \<^verbatim>\<open>q.get('pm25')\<close>, \<open>None\<close> for \<^verbatim>\<open>null\<close> when the
  query has no such parameter.
\<close>

definition force_alert :: "env \<Rightarrow> string option \<Rightarrow> string \<Rightarrow> world \<Rightarrow> response \<times> world" where
  "force_alert e q now w =
     (let v = Number (case q of None \<Rightarrow> [] | Some s \<Rightarrow> s);
          t = now;
          (val, w1) =
            (if isFinite v then (Some v, w)
             else (let (series, w') = getSeries w
                   in (case slice_from (- 1) series of
                         [] \<Rightarrow> None
                       | p # _ \<Rightarrow> Some (Num (pm25 p)), w')))
      in case isFiniteOpt val of
           None \<Rightarrow> (Response 400 (ErrorBody ''no value available''), w1)
         | Some x \<Rightarrow> (Response 200 (ForceAlertBody x t), telegram e (ForcedAlert x t) w1))"

section \<open>Observing the notifier\<close>

fun alert_of :: "notice \<Rightarrow> alert" where
  "alert_of (Posted a) = a"
| "alert_of (Skipped a) = a"


fun is_absolute :: "alert \<Rightarrow> bool" where
  "is_absolute (AbsoluteAlert v t a) = True"
| "is_absolute _ = False"

text \<open>The alerts handed to the notifier between the state \<open>w\<close> and the later \<open>w'\<close>.\<close>

definition new_alerts :: "world \<Rightarrow> world \<Rightarrow> alert list" where
  "new_alerts w w' = map alert_of (drop (length (notices w)) (notices w'))"

text \<open>What an invocation of the notifier records, by the guard of \<^verbatim>\<open>telegram\<close>.\<close>

definition delivery :: "env \<Rightarrow> alert \<Rightarrow> notice" where
  "delivery e a =
     (if falsy (TELEGRAM_TOKEN e) \<or> falsy (TELEGRAM_CHAT_ID e) then Skipped a else Posted a)"

text \<open>
  The alerts that lines 205 to 213 issue for the value \<open>v\<close> with timestamp \<open>t\<close> when
  \<^verbatim>\<open>getSeries\<close> has returned \<open>series\<close>.
\<close>

definition rule_alerts :: "env \<Rightarrow> string \<Rightarrow> real \<Rightarrow> point list \<Rightarrow> alert list" where
  "rule_alerts e t v series =
     (let hist = map pm25 (slice (- 6) (- 1) series);
          base = (if hist \<noteq> [] then foldl (\<lambda>a b. a + b) 0 hist / real (length hist) else v)
      in (if v > base + max 10 (stddev hist * 2) then [SpikeAlert v t base] else []) @
         (if js_ge v (threshold e) then [AbsoluteAlert v t (threshold e)] else []))"

section \<open>States the worker can reach\<close>

text \<open>
  From the empty namespace, by ingestion passes and requests run one after the other,
  with any environment, any upstream answers and any clock.
\<close>

inductive reachable :: "world \<Rightarrow> bool" where
  start: "reachable \<lparr>kv = [], notices = [], edge = []\<rparr>"
| pass: "reachable w \<Longrightarrow> reachable (snd (ingest hourOf e up hourIso w))"
| ask_forecast: "reachable w \<Longrightarrow> reachable (snd (forecast url now w))"
| ask_timeseries: "reachable w \<Longrightarrow> reachable (snd (timeseries url w))"
| forced: "reachable w \<Longrightarrow> reachable (snd (force_alert e q now w))"

section \<open>The operations in the words of the specification\<close>

text \<open>Arithmetic mean and population standard deviation (dividing by \<open>N\<close>).\<close>

definition mean :: "real list \<Rightarrow> real" where
  "mean xs = sum_list xs / real (length xs)"

definition pop_stddev :: "real list \<Rightarrow> real" where
  "pop_stddev xs = sqrt (sum_list (map (\<lambda>x. (x - mean xs) ^ 2) xs) / real (length xs))"



text \<open>The cache, when present, holds what a rebuild produces from the persisted entries.\<close>

definition cache_fresh :: "world \<Rightarrow> bool" where
  "cache_fresh w =
     (case kv_get SERIES_KEY w of
        None \<Rightarrow> True
      | Some c \<Rightarrow> c = JSeries (fst (rebuildSeries w)))"

section \<open>Example states\<close>

text \<open>
  A store with three per-hour keys in no particular order, one of them holding a value
  that is not a number, and a stale cache.
\<close>

definition store_three :: world where
  "store_three =
     \<lparr>kv = [(''pm25:2025-01-01T11:00:00Z'', JNumber 61),
             (''series:last72'', JSeries []),
             (''pm25:2025-01-01T10:00:00Z'', JNumber 48),
             (''pm25:2025-01-01T09:00:00Z'', JOther)],
      notices = [], edge = []\<rparr>"

text \<open>The empty namespace, before the first pass.\<close>

definition empty_world :: world where
  "empty_world = \<lparr>kv = [], notices = [], edge = []\<rparr>"

text \<open>An environment with the notifier configured and no threshold set.\<close>

definition env_default :: env where
  "env_default = \<lparr>TELEGRAM_TOKEN = Some ''token'', TELEGRAM_CHAT_ID = Some ''chat'',
                   OPENAQ_API_KEY = Some ''key'', ALERT_THRESHOLD_PM25 = None\<rparr>"

text \<open>The same with a threshold that is not a numeric literal.\<close>

definition env_unparsable :: env where
  "env_unparsable = env_default\<lparr>ALERT_THRESHOLD_PM25 := Some ''ninety''\<rparr>"

definition hour_10 :: string where
  "hour_10 = ''2025-01-01T10:00:00Z''"

definition hour_11 :: string where
  "hour_11 = ''2025-01-01T11:00:00Z''"

text \<open>A store with one reading, of 40 at 10:00, and no cache.\<close>

definition store_one :: world where
  "store_one = \<lparr>kv = [(''pm25:2025-01-01T10:00:00Z'', JNumber 40)], notices = [], edge = []\<rparr>"

text \<open>
  Upstream answers in which every sensor reports the one value \<open>x\<close> for the hour ending
  at 11:00, and answers in which every request fails.
\<close>

definition upstream_value :: "real \<Rightarrow> upstream" where
  "upstream_value x =
     \<lparr>locations = Ok [''7''],
      sensor_hours = (\<lambda>sid. Some [\<lparr>row_ts = Some ''2025-01-01T11:00:00Z'', row_value = Num x\<rparr>]),
      measurements = NotOk\<rparr>"

definition upstream_down :: upstream where
  "upstream_down = \<lparr>locations = Threw, sensor_hours = (\<lambda>sid. None), measurements = NotOk\<rparr>"

text \<open>The store after a first pass that brought the value \<open>-5\<close> for 11:00.\<close>

definition store_negative :: world where
  "store_negative =
     \<lparr>kv = [(''pm25:2025-01-01T11:00:00Z'', JNumber (- 5)),
             (''series:last72'', JSeries [\<lparr>ts = hour_11, pm25 = - 5\<rparr>])],
      notices = [], edge = []\<rparr>"





text \<open>
  A store whose cache holds a reading for 8:00 while its one persisted reading is for
  10:00: the cache is no suffix of what a rebuild produces.
\<close>

definition store_stale :: world where
  "store_stale =
     \<lparr>kv = [(''series:last72'', JSeries [\<lparr>ts = ''2025-01-01T08:00:00Z'', pm25 = 30\<rparr>]),
             (''pm25:2025-01-01T10:00:00Z'', JNumber 48)],
      notices = [], edge = []\<rparr>"

section \<open>Facts about the store\<close>

lemma series_key_not_hourly: "\<not> prefix ''pm25:'' SERIES_KEY"
  by (simp add: SERIES_KEY_def)

lemma kv_list_put_other: "\<not> prefix pre k \<Longrightarrow> kv_list pre (kv_put k v w) = kv_list pre w"
  by (simp add: kv_list_def kv_put_def update_keys)

lemma kv_get_put: "kv_get k' (kv_put k v w) = (if k' = k then Some v else kv_get k' w)"
  by (simp add: kv_get_def kv_put_def update_conv')

lemma slice_from_neg: "n > 0 \<Longrightarrow> slice_from (- int n) xs = drop (length xs - n) xs"
  by (simp add: slice_from_def rel_index_def max_def nat_diff_distrib' flip: of_nat_diff)

lemma slice_from_72: "slice_from (- 72) ks = drop (length ks - 72) ks"
  using slice_from_neg[of 72 ks] by simp

lemma recent_keys_prefixed:
  "\<forall>k \<in> set (drop n (sort (kv_list ''pm25:'' w))). prefix ''pm25:'' k"
proof
  fix k assume "k \<in> set (drop n (sort (kv_list ''pm25:'' w)))"
  then have "k \<in> set (sort (kv_list ''pm25:'' w))" by (rule in_set_dropD)
  then show "prefix ''pm25:'' k" by (simp add: kv_list_def)
qed

text \<open>The output of a rebuild depends on the per-hour keys and their values only.\<close>

lemma rebuild_fst_cong:
  assumes "kv_list ''pm25:'' w' = kv_list ''pm25:'' w"
    and "\<And>k. prefix ''pm25:'' k \<Longrightarrow> kv_get k w' = kv_get k w"
  shows "fst (rebuildSeries w') = fst (rebuildSeries w)"
proof -
  let ?last = "slice_from (- 72) (sort (kv_list ''pm25:'' w))"
  have "\<forall>k \<in> set ?last. kv_get k w' = kv_get k w"
    using assms(2) recent_keys_prefixed by (simp add: slice_from_72)
  then have "map (\<lambda>k. kv_get k w') ?last = map (\<lambda>k. kv_get k w) ?last"
    by simp
  then show ?thesis
    unfolding rebuildSeries_def Let_def assms(1) by (simp only: fst_conv)
qed

lemma rebuild_idem: "fst (rebuildSeries (snd (rebuildSeries w))) = fst (rebuildSeries w)"
proof (rule rebuild_fst_cong)
  show "kv_list ''pm25:'' (snd (rebuildSeries w)) = kv_list ''pm25:'' w"
    by (simp add: rebuildSeries_def Let_def kv_list_put_other series_key_not_hourly)
  show "kv_get k (snd (rebuildSeries w)) = kv_get k w" if "prefix ''pm25:'' k" for k
    using that series_key_not_hourly by (auto simp: rebuildSeries_def Let_def kv_get_put)
qed




lemma rebuild_writes_cache:
  "kv_get SERIES_KEY (snd (rebuildSeries w)) = Some (JSeries (fst (rebuildSeries w)))"
  by (simp add: rebuildSeries_def Let_def kv_get_put)

section \<open>Facts about the notifier, the statistics and the rounding\<close>

lemma notices_kv_put [simp]: "notices (kv_put k v w) = notices w"
  by (simp add: kv_put_def)
lemma notices_kv_delete [simp]: "notices (kv_delete k w) = notices w"
  by (simp add: kv_delete_def)
lemma notices_fold_delete [simp]: "notices (fold kv_delete ks w) = notices w"
  by (induction ks arbitrary: w) auto
lemma notices_rebuild [simp]: "notices (snd (rebuildSeries w)) = notices w"
  by (simp add: rebuildSeries_def Let_def)
lemma notices_getSeries [simp]: "notices (snd (getSeries w)) = notices w"
  by (simp add: getSeries_def split: option.splits json.splits)
lemma notices_persist [simp]: "notices (persist r w) = notices w"
  by (simp add: persist_def split: option.splits)

lemma notices_prune [simp]: "notices (prune w) = notices w"
  by (simp add: prune_def Let_def)

lemma notices_append_step [simp]: "notices (append_step r w) = notices w"
  by (simp add: append_step_def)

lemma getSeries_after_rebuild:
  "getSeries (snd (rebuildSeries w)) = (fst (rebuildSeries w), snd (rebuildSeries w))"
  by (simp add: getSeries_def rebuild_writes_cache)

lemma getSeries_append_step:
  "getSeries (append_step r w) = (fst (rebuildSeries (append_step r w)), append_step r w)"
  unfolding append_step_def by (simp add: getSeries_after_rebuild rebuild_idem)

lemma new_alerts_append:
  "map alert_of (notices w') = map alert_of (notices w) @ xs \<Longrightarrow> new_alerts w w' = xs"
  by (metis append_eq_conv_conj drop_map length_map new_alerts_def)

lemma ingest_no_value:
  assumes "fetchOpenAQAvgPM25 hourOf up hourIso = (t, None)"
  shows "ingest hourOf e up hourIso w = ((t, None), append_step (t, None) w)"
  by (simp add: ingest_def assms Let_def)

lemma foldl_add: "foldl (\<lambda>a b. a + b) s xs = s + sum_list (xs :: real list)"
  by (induction xs arbitrary: s) auto

lemma foldl_sq: "foldl (\<lambda>s x. s + (x - m) ^ 2) s0 xs = s0 + sum_list (map (\<lambda>x. (x - m) ^ 2) (xs :: real list))"
  by (induction xs arbitrary: s0) auto

lemma foldl_mean: "foldl (\<lambda>a b. a + b) 0 xs / real (length xs) = mean xs"
  by (simp add: foldl_add mean_def)

lemma stddev_pop: "stddev xs = pop_stddev xs"
proof (cases xs)
  case Nil
  then show ?thesis by (simp add: stddev_def pop_stddev_def)
next
  case (Cons x ys)
  show ?thesis
  proof (cases ys)
    case Nil
    with Cons show ?thesis by (simp add: stddev_def pop_stddev_def mean_def)
  next
    case (Cons y zs)
    with \<open>xs = x # ys\<close> have "\<not> length xs < 2" by simp
    then show ?thesis
      by (simp add: stddev_def pop_stddev_def Let_def foldl_sq foldl_mean)
  qed
qed

lemma pop_stddev_nonneg: "0 \<le> pop_stddev xs"
  unfolding pop_stddev_def by (intro real_sqrt_ge_zero divide_nonneg_nonneg sum_list_nonneg) auto

lemma scaled_floor_mono:
  "(a::real) \<le> b \<Longrightarrow> real_of_int \<lfloor>a * 10 ^ d + 1 / 2\<rfloor> / 10 ^ d \<le> real_of_int \<lfloor>b * 10 ^ d + 1 / 2\<rfloor> / 10 ^ d"
proof -
  assume "a \<le> b"
  then have "a * 10 ^ d + 1 / 2 \<le> b * 10 ^ d + 1 / 2"
    by (simp add: mult_right_mono)
  then have "\<lfloor>a * 10 ^ d + 1 / 2\<rfloor> \<le> \<lfloor>b * 10 ^ d + 1 / 2\<rfloor>"
    by (rule floor_mono)
  then show ?thesis
    by (simp add: divide_right_mono)
qed

lemma scaled_floor_nonneg:
  "(0::real) \<le> a \<Longrightarrow> 0 \<le> real_of_int \<lfloor>a * 10 ^ d + 1 / 2\<rfloor> / 10 ^ d"
proof -
  assume "0 \<le> a"
  then have "0 \<le> a * 10 ^ d + 1 / 2" by simp
  then have "0 \<le> \<lfloor>a * 10 ^ d + 1 / 2\<rfloor>" by simp
  then show ?thesis by simp
qed

lemma toFixed_nonneg: "0 \<le> x \<Longrightarrow> 0 \<le> toFixed d x"
  using scaled_floor_nonneg[of x d] by (simp add: toFixed_def)

lemma toFixed_nonpos: "x < 0 \<Longrightarrow> toFixed d x \<le> 0"
  using scaled_floor_nonneg[of "- x" d] by (simp add: toFixed_def)

lemma toFixed_mono: "x \<le> y \<Longrightarrow> toFixed d x \<le> toFixed d y"
proof -
  assume xy: "x \<le> y"
  consider "y < 0" | "x < 0" "0 \<le> y" | "0 \<le> x" by linarith
  then show ?thesis
  proof cases
    case 1
    then have "x < 0" using xy by simp
    moreover have "- y \<le> - x" using xy by simp
    ultimately show ?thesis
      using 1 scaled_floor_mono[of "- y" "- x" d] by (simp add: toFixed_def)
  next
    case 2
    then show ?thesis
      using toFixed_nonpos[of x d] toFixed_nonneg[of y d] by linarith
  next
    case 3
    then have "0 \<le> y" using xy by simp
    then show ?thesis
      using 3 xy scaled_floor_mono[of x y d] by (simp add: toFixed_def)
  qed
qed

section \<open>The rebuild of the series\<close>


lemma rebuild_store_three:
  "fst (rebuildSeries store_three) =
     [\<lparr>ts = ''2025-01-01T10:00:00Z'', pm25 = 48\<rparr>, \<lparr>ts = ''2025-01-01T11:00:00Z'', pm25 = 61\<rparr>]"
  by code_simp


section \<open>Evaluations on the example states\<close>

lemma fetch_upstream_95: "fetchOpenAQAvgPM25 Some (upstream_value 95) hour_11 = (hour_11, Some 95)"
  by code_simp


lemma series_store_one: "fst (getSeries store_one) = [\<lparr>ts = hour_10, pm25 = 40\<rparr>]"
  by code_simp

lemma Number_90: "Number ''90'' = Num 90"
  by code_simp

lemma Number_ninety: "Number ''ninety'' = NaN"
  by code_simp

section \<open>The state after a pass\<close>

lemma telegram_delivery: "telegram e a w = w\<lparr>notices := notices w @ [delivery e a]\<rparr>"
  by (simp add: telegram_def delivery_def)

lemma alert_of_delivery [simp]: "alert_of (delivery e a) = a"
  by (simp add: delivery_def)

lemma map_alert_of_delivery [simp]: "map alert_of (map (delivery e) xs) = xs"
  by (induction xs) auto

lemma detect_world:
  assumes "getSeries w = (series, w1)"
  shows "detect e t v w = w1\<lparr>notices := notices w1 @ map (delivery e) (rule_alerts e t v series)\<rparr>"
  using assms by (simp add: detect_def rule_alerts_def Let_def telegram_delivery)

lemma ingest_world:
  assumes "fetchOpenAQAvgPM25 hourOf up hourIso = (t, Some v)"
  shows "snd (ingest hourOf e up hourIso w) =
     (append_step (t, Some v) w)
        \<lparr>notices := notices w @
           map (delivery e) (rule_alerts e t v (fst (getSeries (append_step (t, Some v) w))))\<rparr>"
  using detect_world[OF getSeries_append_step, of e t v "(t, Some v)" w]
  by (simp add: ingest_def assms Let_def getSeries_append_step)

lemma rule_alerts_single:
  "rule_alerts e t v [p] = (if js_ge v (threshold e) then [AbsoluteAlert v t (threshold e)] else [])"
  by (simp add: rule_alerts_def slice_def rel_index_def stddev_def)

lemma threshold_default: "threshold env_default = Num 90"
  using Number_90 by (simp add: threshold_def env_default_def)



lemma ingest_rule_alerts:
  assumes "fetchOpenAQAvgPM25 hourOf up hourIso = (t, Some v)"
  shows "new_alerts w (snd (ingest hourOf e up hourIso w)) =
         rule_alerts e t v (fst (getSeries (append_step (t, Some v) w)))"
  by (rule new_alerts_append) (simp add: ingest_world[OF assms] comp_def)

section \<open>Queries against an empty store\<close>

lemma rebuild_no_keys: "kv_list ''pm25:'' w = [] \<Longrightarrow> fst (rebuildSeries w) = []"
  by (simp add: rebuildSeries_def Let_def slice_from_def)

lemma getSeries_no_keys:
  assumes "kv_list ''pm25:'' w = []" and "kv_get SERIES_KEY w \<in> {None, Some (JSeries [])}"
  shows "fst (getSeries w) = []"
  using assms by (auto simp: getSeries_def rebuild_no_keys)

text \<open>
  Claim C8. In a state whose store holds no per-hour entry (the series cache absent or
  the empty array a rebuild wrote, and no response cached at the edge for the request),
  the timeseries query answers 200 with \<^verbatim>\<open>{ hours: 0, series: [] }\<close>, and the forecast
  query answers 503 with \<^verbatim>\<open>no data yet\<close>.
\<close>

theorem empty_store_queries:
  assumes "kv_list ''pm25:'' w = []"
    and "kv_get SERIES_KEY w \<in> {None, Some (JSeries [])}"
    and "map_of (edge w) url1 = None" and "map_of (edge w) url2 = None"
  shows "fst (timeseries url1 w) = Response 200 (TimeseriesBody 0 []) \<and>
         fst (forecast url2 now w) = Response 503 (ErrorBody ''no data yet'')"
proof -
  have "fst (getSeries w) = []"
    using assms(1,2) by (rule getSeries_no_keys)
  then show ?thesis
    using assms(3,4) by (cases "getSeries w") (simp add: timeseries_def forecast_def Let_def)
qed

theorem empty_store_queries_witness:
  "fst (timeseries ''/timeseries'' empty_world) = Response 200 (TimeseriesBody 0 []) \<and>
   fst (forecast ''/forecast'' hour_11 empty_world) = Response 503 (ErrorBody ''no data yet'')"
  using empty_store_queries[of empty_world "''/timeseries''" "''/forecast''" hour_11]
  by (simp add: empty_world_def kv_list_def kv_get_def)

section \<open>The forced alert\<close>

text \<open>
  Claim C1 says that a force-alert request without the \<^verbatim>\<open>pm25\<close> parameter uses the most
  recent series value, and fails with a client error when the series is empty. The code
  converts the absent parameter with \<^verbatim>\<open>Number(q.get('pm25') ?? '')\<close>, and the empty
  string converts to \<open>0\<close>, a finite number: the request answers 200 and hands the
  notifier the value \<open>0\<close>, whatever the series holds. The series is read only when the
  parameter is present and not numeric.
\<close>

theorem force_alert_without_override:
  "force_alert e None now w = (Response 200 (ForceAlertBody 0 now), telegram e (ForcedAlert 0 now) w)"
  by (simp add: force_alert_def Number_def trim_def)

theorem force_alert_without_override_witness:
  "fst (getSeries store_one) = [\<lparr>ts = hour_10, pm25 = 40\<rparr>] \<and>
   force_alert env_default None hour_11 store_one =
     (Response 200 (ForceAlertBody 0 hour_11),
      store_one\<lparr>notices := [Posted (ForcedAlert 0 hour_11)]\<rparr>)"
  using force_alert_without_override[of env_default hour_11 store_one]
  by (simp add: series_store_one) (simp add: telegram_def falsy_def env_default_def store_one_def)

section \<open>The absolute threshold rule\<close>

lemma new_alerts_same: "notices w' = notices w \<Longrightarrow> new_alerts w w' = []"
  by (simp add: new_alerts_def)

text \<open>
  Claim C10. When \<^verbatim>\<open>ALERT_THRESHOLD_PM25\<close> is set to a string that \<^verbatim>\<open>Number\<close> does not
  parse, the threshold is \<open>NaN\<close> (the rules handler reports it), and no ingestion pass
  hands an absolute-threshold alert to the notifier, whatever the upstream answers and
  whatever the store holds.
\<close>

theorem unparsable_threshold_never_alerts:
  assumes "ALERT_THRESHOLD_PM25 e = Some s" and "Number s = NaN"
  shows "threshold e = NaN \<and>
         alerts_rules e = Response 200 (RulesBody NaN ''value > baseline + max(10, 2*stddev(last 5 hours))'') \<and>
         filter is_absolute (new_alerts w (snd (ingest hourOf e up hourIso w))) = []"
proof -
  have th: "threshold e = NaN"
    using assms by (simp add: threshold_def)
  have "filter is_absolute (new_alerts w (snd (ingest hourOf e up hourIso w))) = []"
  proof (cases "fetchOpenAQAvgPM25 hourOf up hourIso")
    case (Pair t val)
    show ?thesis
    proof (cases val)
      case None
      then show ?thesis
        using Pair by (simp add: ingest_no_value new_alerts_same)
    next
      case (Some v)
      then show ?thesis
        using ingest_rule_alerts[of hourOf up hourIso t v w e] Pair
        by (simp add: th rule_alerts_def Let_def)
    qed
  qed
  then show ?thesis
    using th by (simp add: alerts_rules_def)
qed

theorem unparsable_threshold_never_alerts_witness:
  "Number ''ninety'' = NaN \<and>
   fetchOpenAQAvgPM25 Some (upstream_value 95) hour_11 = (hour_11, Some 95) \<and>
   filter is_absolute
     (new_alerts store_one (snd (ingest Some env_unparsable (upstream_value 95) hour_11 store_one))) = []"
  using unparsable_threshold_never_alerts[of env_unparsable "''ninety''" store_one Some "upstream_value 95" hour_11]
  by (simp add: Number_ninety fetch_upstream_95 env_unparsable_def)



section \<open>The nowcast band\<close>

lemma slice_from_24: "slice_from (- 24) xs = drop (length xs - 24) xs"
  using slice_from_neg[of 24 xs] by simp

lemma mean_nonneg: "\<forall>x \<in> set xs. 0 \<le> x \<Longrightarrow> 0 \<le> mean xs"
  by (simp add: mean_def sum_list_nonneg)

lemma pop_stddev_short: "length xs < 2 \<Longrightarrow> pop_stddev xs = 0"
  using stddev_pop[of xs] by (simp add: stddev_def)

lemma forecast_miss:
  assumes "map_of (edge w) url = None" and "fst (getSeries w) = series" and "series \<noteq> []"
    and "vals = map pm25 (drop (length series - 24) series)"
  shows "fst (forecast url now w) =
           Response 200 (ForecastBody
             \<lparr>hour = now, pm25_mean = toFixed 1 (mean vals),
              pm25_low = toFixed 1 (max 0 (mean vals - pop_stddev vals)),
              pm25_high = toFixed 1 (mean vals + pop_stddev vals),
              samples = length vals\<rparr>)"
  using assms
  by (cases "getSeries w") (simp add: forecast_def Let_def slice_from_24 foldl_mean stddev_pop)

lemma ingest_reaches_store_negative:
  "snd (ingest Some env_default (upstream_value (- 5)) hour_11 empty_world) = store_negative"
proof -
  have f: "fetchOpenAQAvgPM25 Some (upstream_value (- 5)) hour_11 = (hour_11, Some (- 5))"
    by code_simp
  have a: "append_step (hour_11, Some (- 5)) empty_world = store_negative"
    by code_simp
  have g: "fst (getSeries store_negative) = [\<lparr>ts = hour_11, pm25 = - 5\<rparr>]"
    by code_simp
  show ?thesis
    unfolding ingest_world[OF f] a g rule_alerts_single threshold_default
    by (simp add: store_negative_def empty_world_def)
qed

text \<open>
  Claim C6, as stated, fails where it says that \<open>high >= low\<close> always holds. The code
  accepts every finite upstream value, a negative one too. After a first pass that
  brought \<open>-5\<close> (the state of \<open>ingest_reaches_store_negative\<close>) the forecast is the band
  with \<open>low = 0\<close> and \<open>high = -5\<close>.
\<close>

theorem forecast_band_counterexample:
  "fst (forecast ''/forecast'' hour_11 store_negative) =
     Response 200 (ForecastBody
       \<lparr>hour = hour_11, pm25_mean = - 5, pm25_low = 0, pm25_high = - 5, samples = 1\<rparr>) \<and>
   \<not> (0::real) \<le> - 5"
  by (simp add: store_negative_def forecast_def getSeries_def kv_get_def SERIES_KEY_def
      slice_from_def rel_index_def stddev_def toFixed_def Let_def)

text \<open>
  Claim C6, amended. For a non-empty series (and no response cached at the edge), the
  forecast takes the last 24 entries, or all of them when there are fewer, computes their
  arithmetic mean and population standard deviation (dividing by \<open>N\<close>; \<open>0\<close> for fewer
  than two samples) and answers with \<open>mean\<close>, \<open>low = max(0, mean - std)\<close> and
  \<open>high = mean + std\<close>, each rounded to one decimal. \<open>low >= 0\<close> always holds;
  \<open>high >= low\<close> holds whenever \<open>mean + std >= 0\<close>, in particular whenever no reading of
  the window is negative.
\<close>

theorem forecast_band:
  assumes "map_of (edge w) url = None" and "fst (getSeries w) = series" and "series \<noteq> []"
    and "vals = map pm25 (drop (length series - 24) series)"
  shows "fst (forecast url now w) =
           Response 200 (ForecastBody
             \<lparr>hour = now, pm25_mean = toFixed 1 (mean vals),
              pm25_low = toFixed 1 (max 0 (mean vals - pop_stddev vals)),
              pm25_high = toFixed 1 (mean vals + pop_stddev vals),
              samples = length vals\<rparr>) \<and>
         length vals = min 24 (length series) \<and>
         (length vals < 2 \<longrightarrow> pop_stddev vals = 0) \<and>
         0 \<le> toFixed 1 (max 0 (mean vals - pop_stddev vals)) \<and>
         (0 \<le> mean vals + pop_stddev vals \<longrightarrow>
            toFixed 1 (max 0 (mean vals - pop_stddev vals)) \<le> toFixed 1 (mean vals + pop_stddev vals)) \<and>
         ((\<forall>x \<in> set vals. 0 \<le> x) \<longrightarrow>
            toFixed 1 (max 0 (mean vals - pop_stddev vals)) \<le> toFixed 1 (mean vals + pop_stddev vals))"
proof -
  have s: "0 \<le> pop_stddev vals" by (rule pop_stddev_nonneg)
  have len: "length vals = min 24 (length series)"
    using assms(4) by auto
  have low: "0 \<le> toFixed 1 (max 0 (mean vals - pop_stddev vals))"
    by (rule toFixed_nonneg) simp
  have band: "toFixed 1 (max 0 (mean vals - pop_stddev vals)) \<le> toFixed 1 (mean vals + pop_stddev vals)"
    if "0 \<le> mean vals + pop_stddev vals"
    using that s by (intro toFixed_mono) simp
  have band': "toFixed 1 (max 0 (mean vals - pop_stddev vals)) \<le> toFixed 1 (mean vals + pop_stddev vals)"
    if "\<forall>x \<in> set vals. 0 \<le> x"
    using mean_nonneg[OF that] s by (intro band) simp
  show ?thesis
    using forecast_miss[OF assms] len low band band' pop_stddev_short by blast
qed

theorem forecast_band_witness:
  "fst (forecast ''/forecast'' hour_11 store_one) =
     Response 200 (ForecastBody
       \<lparr>hour = hour_11, pm25_mean = 40, pm25_low = 40, pm25_high = 40, samples = 1\<rparr>) \<and>
   (0::real) \<le> 40"
proof -
  have e: "map_of (edge store_one) ''/forecast'' = None"
    by (simp add: store_one_def)
  have m: "mean [40] = 40" "pop_stddev [40] = 0"
    by (simp_all add: mean_def pop_stddev_def)
  have t: "toFixed 1 40 = 40"
    by (simp add: toFixed_def)
  show ?thesis
    using forecast_band[OF e series_store_one, of "[40]" hour_11]
    by (simp add: m t del: One_nat_def)
qed

section \<open>Retention and the pass without data\<close>

lemma filter_removeAll_commute: "filter P (removeAll k xs) = removeAll k (filter P xs)"
  by (induction xs) auto

lemma kv_list_delete: "kv_list pre (kv_delete k w) = removeAll k (kv_list pre w)"
  by (simp add: kv_list_def kv_delete_def delete_keys filter_removeAll_commute)

lemma kv_list_fold_delete:
  "kv_list pre (fold kv_delete ks w) = filter (\<lambda>k. k \<notin> set ks) (kv_list pre w)"
proof (induction ks arbitrary: w)
  case Nil
  then show ?case by simp
next
  case (Cons k ks)
  then show ?case
    by (simp add: kv_list_delete removeAll_filter_not_eq conj_commute eq_commute)
qed

lemma kv_get_delete: "kv_get k' (kv_delete k w) = (if k' = k then None else kv_get k' w)"
  by (simp add: kv_get_def kv_delete_def delete_conv')

lemma kv_get_fold_delete:
  "kv_get k (fold kv_delete ks w) = (if k \<in> set ks then None else kv_get k w)"
  by (induction ks arbitrary: w) (auto simp: kv_get_delete)

lemma distinct_kv_list: "distinct (map fst (kv w)) \<Longrightarrow> distinct (kv_list pre w)"
  by (simp add: kv_list_def)


lemma filter_not_in_take:
  assumes "distinct ys"
  shows "filter (\<lambda>k. k \<notin> set (take n ys)) ys = drop n ys"
proof -
  have d: "set (take n ys) \<inter> set (drop n ys) = {}"
    using assms distinct_append[of "take n ys" "drop n ys"] by simp
  have "filter (\<lambda>k. k \<notin> set (take n ys)) (take n ys) = []"
    by (simp add: filter_empty_conv)
  moreover have "filter (\<lambda>k. k \<notin> set (take n ys)) (drop n ys) = drop n ys"
    using d by (auto simp: filter_id_conv)
  ultimately have "filter (\<lambda>k. k \<notin> set (take n ys)) (take n ys @ drop n ys) = drop n ys"
    by (simp only: filter_append append_Nil)
  then show ?thesis by simp
qed

lemma sort_without_oldest:
  assumes "distinct (xs :: string list)"
  shows "sort (filter (\<lambda>k. k \<notin> set (take n (sort xs))) xs) = drop n (sort xs)"
proof -
  have "sort (filter (\<lambda>k. k \<notin> set (take n (sort xs))) xs) =
        filter (\<lambda>k. k \<notin> set (take n (sort xs))) (sort xs)"
    by (simp add: filter_sort)
  also have "\<dots> = drop n (sort xs)"
    using assms by (intro filter_not_in_take) simp
  finally show ?thesis .
qed

lemma slice_oldest: "slice 0 (max 0 (int (length ks) - keep)) ks = take (length ks - 1440) ks"
  by (auto simp: slice_def rel_index_def keep_def max_def min_def nat_diff_distrib' intro!: arg_cong2[where f=take])

text \<open>
  The sorted per-hour keys after the pruning are the sorted keys before it without the
  oldest excess.
\<close>

lemma prune_keys:
  assumes "distinct (map fst (kv w))"
  shows "sort (kv_list ''pm25:'' (prune w)) =
         drop (length (kv_list ''pm25:'' w) - 1440) (sort (kv_list ''pm25:'' w))"
  using sort_without_oldest[OF distinct_kv_list[OF assms], of "length (kv_list ''pm25:'' w) - 1440" "''pm25:''"]
  by (simp add: prune_def Let_def slice_oldest kv_list_fold_delete)

lemma prune_get:
  "kv_get k (prune w) = (if k \<in> set (take (length (kv_list ''pm25:'' w) - 1440) (sort (kv_list ''pm25:'' w))) then None else kv_get k w)"
  by (simp add: prune_def Let_def slice_oldest kv_get_fold_delete)

lemma kv_list_rebuild: "kv_list ''pm25:'' (snd (rebuildSeries w)) = kv_list ''pm25:'' w"
  by (simp add: rebuildSeries_def Let_def kv_list_put_other series_key_not_hourly)



lemma distinct_store_three: "distinct (map fst (kv store_three))"
  by (simp add: store_three_def)


lemma rebuild_fst_recent:
  assumes "slice_from (- 72) (sort (kv_list ''pm25:'' w')) = slice_from (- 72) (sort (kv_list ''pm25:'' w))"
    and "\<forall>k \<in> set (slice_from (- 72) (sort (kv_list ''pm25:'' w))). kv_get k w' = kv_get k w"
  shows "fst (rebuildSeries w') = fst (rebuildSeries w)"
proof -
  let ?last = "slice_from (- 72) (sort (kv_list ''pm25:'' w))"
  have "map (\<lambda>k. kv_get k w') ?last = map (\<lambda>k. kv_get k w) ?last"
    using assms(2) by simp
  then show ?thesis
    unfolding rebuildSeries_def Let_def assms(1) by (simp only: fst_conv)
qed

lemma recent_after_drop:
  "drop (length (drop (length ks - 1440) ks) - 72) (drop (length ks - 1440) ks) = drop (length ks - 72) ks"
  by (cases "length ks \<le> 1440") (simp_all add: add.commute)

lemma rebuild_after_prune:
  assumes "distinct (map fst (kv w))"
  shows "fst (rebuildSeries (prune w)) = fst (rebuildSeries w)"
proof (rule rebuild_fst_recent)
  let ?ks = "sort (kv_list ''pm25:'' w)"
  let ?n = "length (kv_list ''pm25:'' w) - 1440"
  show "slice_from (- 72) (sort (kv_list ''pm25:'' (prune w))) = slice_from (- 72) ?ks"
    using recent_after_drop[of ?ks] by (simp add: slice_from_72 prune_keys[OF assms])
  have d: "distinct ?ks"
    using distinct_kv_list[OF assms] by simp
  have disj: "set (take ?n ?ks) \<inter> set (drop ?n ?ks) = {}"
    using d distinct_append[of "take ?n ?ks" "drop ?n ?ks"] by simp
  show "\<forall>k \<in> set (slice_from (- 72) ?ks). kv_get k (prune w) = kv_get k w"
  proof
    fix k assume "k \<in> set (slice_from (- 72) ?ks)"
    then have "k \<in> set (drop (length ?ks - 72) ?ks)"
      by (simp add: slice_from_72)
    moreover have "?n \<le> length ?ks - 72"
      by simp
    ultimately have "k \<in> set (drop ?n ?ks)"
      using set_drop_subset_set_drop[of ?n "length ?ks - 72" ?ks] by blast
    then have "k \<notin> set (take ?n ?ks)"
      using disj by blast
    then show "kv_get k (prune w) = kv_get k w"
      by (simp add: prune_get)
  qed
qed

lemma kv_get_rebuild: "k \<noteq> SERIES_KEY \<Longrightarrow> kv_get k (snd (rebuildSeries w)) = kv_get k w"
  by (simp add: rebuildSeries_def Let_def kv_get_put)

lemma persist_none: "persist (t, None) w = w"
  by (simp add: persist_def)

lemma fetch_no_data:
  assumes "primary_strategy up hourIso = None" and "fallback_strategy hourOf up hourIso = None"
  shows "fetchOpenAQAvgPM25 hourOf up hourIso = (hourIso, None)"
  using assms by (simp add: fetchOpenAQAvgPM25_def)

text \<open>
  Claim C7. When neither strategy of the reducer yields a value, the pass returns the
  last full hour with no value, and raises nothing. On a store with unique keys, every
  entry other than the cache that the store holds afterwards was there before with the
  same value, the rebuilt series is what a rebuild gave before the pass, and the notifier
  is not invoked.
\<close>

theorem no_data_pass:
  assumes "primary_strategy up hourIso = None" and "fallback_strategy hourOf up hourIso = None"
    and "distinct (map fst (kv w))"
    and "w' = snd (ingest hourOf e up hourIso w)"
  shows "fst (ingest hourOf e up hourIso w) = (hourIso, None) \<and>
         (\<forall>k v. k \<noteq> SERIES_KEY \<longrightarrow> kv_get k w' = Some v \<longrightarrow> kv_get k w = Some v) \<and>
         set (kv_list ''pm25:'' w') \<subseteq> set (kv_list ''pm25:'' w) \<and>
         fst (rebuildSeries w') = fst (rebuildSeries w) \<and>
         fst (getSeries w') = fst (rebuildSeries w) \<and>
         notices w' = notices w"
proof -
  have i: "ingest hourOf e up hourIso w = ((hourIso, None), append_step (hourIso, None) w)"
    using fetch_no_data[OF assms(1,2)] by (rule ingest_no_value)
  then have w': "w' = snd (rebuildSeries (prune w))"
    by (simp add: assms(4) append_step_def persist_none)
  have same: "fst (rebuildSeries (prune w)) = fst (rebuildSeries w)"
    using assms(3) by (rule rebuild_after_prune)
  have "kv_get k w = Some v" if "k \<noteq> SERIES_KEY" "kv_get k w' = Some v" for k v
    using that by (simp add: w' kv_get_rebuild prune_get split: if_splits)
  moreover have "set (kv_list ''pm25:'' w') \<subseteq> set (kv_list ''pm25:'' w)"
    by (auto simp: w' kv_list_rebuild prune_def Let_def kv_list_fold_delete)
  moreover have "fst (rebuildSeries w') = fst (rebuildSeries w)"
    by (simp add: w' rebuild_idem same)
  moreover have "fst (getSeries w') = fst (rebuildSeries w)"
    by (simp add: w' getSeries_after_rebuild same)
  moreover have "notices w' = notices w"
    by (simp add: w')
  ultimately show ?thesis
    using i by simp
qed

lemma upstream_down_no_data:
  "primary_strategy upstream_down hourIso = None \<and> fallback_strategy hourOf upstream_down hourIso = None"
  by (simp add: primary_strategy_def fallback_strategy_def upstream_down_def)

theorem no_data_pass_witness:
  "ingest Some env_default upstream_down hour_11 store_three =
     ((hour_11, None),
      store_three\<lparr>kv := [(''pm25:2025-01-01T11:00:00Z'', JNumber 61),
             (''series:last72'', JSeries [\<lparr>ts = hour_10, pm25 = 48\<rparr>, \<lparr>ts = hour_11, pm25 = 61\<rparr>]),
             (''pm25:2025-01-01T10:00:00Z'', JNumber 48),
             (''pm25:2025-01-01T09:00:00Z'', JOther)]\<rparr>) \<and>
   fst (rebuildSeries (snd (ingest Some env_default upstream_down hour_11 store_three))) =
     [\<lparr>ts = hour_10, pm25 = 48\<rparr>, \<lparr>ts = hour_11, pm25 = 61\<rparr>] \<and>
   notices (snd (ingest Some env_default upstream_down hour_11 store_three)) = []"
proof -
  have a: "append_step (hour_11, None) store_three =
      store_three\<lparr>kv := [(''pm25:2025-01-01T11:00:00Z'', JNumber 61),
             (''series:last72'', JSeries [\<lparr>ts = hour_10, pm25 = 48\<rparr>, \<lparr>ts = hour_11, pm25 = 61\<rparr>]),
             (''pm25:2025-01-01T10:00:00Z'', JNumber 48),
             (''pm25:2025-01-01T09:00:00Z'', JOther)]\<rparr>"
    by code_simp
  have i: "ingest Some env_default upstream_down hour_11 store_three = ((hour_11, None), append_step (hour_11, None) store_three)"
    using upstream_down_no_data fetch_no_data ingest_no_value by blast
  have r: "fst (rebuildSeries store_three) = [\<lparr>ts = hour_10, pm25 = 48\<rparr>, \<lparr>ts = hour_11, pm25 = 61\<rparr>]"
    by (simp add: rebuild_store_three hour_10_def hour_11_def)
  show ?thesis
    using no_data_pass[OF conjunct1[OF upstream_down_no_data] conjunct2[OF upstream_down_no_data] distinct_store_three refl,
        where hourIso = hour_11 and hourOf = Some and e = env_default]
    by (simp add: i a r) (simp add: store_three_def)
qed

section \<open>The spike rule\<close>

















section \<open>The series cache\<close>

lemma rebuild_kv_cong: "kv w' = kv w \<Longrightarrow> fst (rebuildSeries w') = fst (rebuildSeries w)"
  by (rule rebuild_fst_cong) (simp_all add: kv_list_def kv_get_def)

lemma cache_fresh_kv_cong: "kv w' = kv w \<Longrightarrow> cache_fresh w' = cache_fresh w"
proof -
  assume k: "kv w' = kv w"
  then have "kv_get SERIES_KEY w' = kv_get SERIES_KEY w"
    by (simp add: kv_get_def)
  then show ?thesis
    unfolding cache_fresh_def rebuild_kv_cong[OF k] by simp
qed

lemma cache_fresh_rebuild: "cache_fresh (snd (rebuildSeries w))"
  by (simp add: cache_fresh_def rebuild_writes_cache rebuild_idem)

lemma cache_fresh_getSeries: "cache_fresh w \<Longrightarrow> cache_fresh (snd (getSeries w))"
  by (auto simp: getSeries_def cache_fresh_rebuild split: option.splits json.splits)

lemma kv_telegram [simp]: "kv (telegram e a w) = kv w"
  by (simp add: telegram_def)

lemma cache_fresh_ingest: "cache_fresh (snd (ingest hourOf e up hourIso w))"
proof (cases "fetchOpenAQAvgPM25 hourOf up hourIso")
  case (Pair t val)
  have a: "cache_fresh (append_step (t, val) w)"
    by (simp add: append_step_def cache_fresh_rebuild)
  show ?thesis
  proof (cases val)
    case None
    then show ?thesis
      using a Pair by (simp add: ingest_no_value)
  next
    case (Some v)
    then show ?thesis
      using a Pair cache_fresh_kv_cong[of "snd (ingest hourOf e up hourIso w)" "append_step (t, Some v) w"]
      by (simp add: ingest_world)
  qed
qed

lemma cache_fresh_forecast: "cache_fresh w \<Longrightarrow> cache_fresh (snd (forecast url now w))"
proof -
  assume f: "cache_fresh w"
  obtain series w1 where g: "getSeries w = (series, w1)"
    by (cases "getSeries w") simp
  then have "cache_fresh w1"
    using cache_fresh_getSeries[OF f] by simp
  moreover have "kv (snd (forecast url now w)) = kv w \<or> kv (snd (forecast url now w)) = kv w1"
    by (simp add: forecast_def g Let_def split: option.splits)
  ultimately show ?thesis
    using f cache_fresh_kv_cong by metis
qed

lemma cache_fresh_timeseries: "cache_fresh w \<Longrightarrow> cache_fresh (snd (timeseries url w))"
proof -
  assume f: "cache_fresh w"
  obtain series w1 where g: "getSeries w = (series, w1)"
    by (cases "getSeries w") simp
  then have "cache_fresh w1"
    using cache_fresh_getSeries[OF f] by simp
  moreover have "kv (snd (timeseries url w)) = kv w \<or> kv (snd (timeseries url w)) = kv w1"
    by (simp add: timeseries_def g Let_def split: option.splits)
  ultimately show ?thesis
    using f cache_fresh_kv_cong by metis
qed

lemma cache_fresh_force_alert: "cache_fresh w \<Longrightarrow> cache_fresh (snd (force_alert e q now w))"
proof -
  assume f: "cache_fresh w"
  obtain series w1 where g: "getSeries w = (series, w1)"
    by (cases "getSeries w") simp
  then have "cache_fresh w1"
    using cache_fresh_getSeries[OF f] by simp
  moreover have "kv (snd (force_alert e q now w)) = kv w \<or> kv (snd (force_alert e q now w)) = kv w1"
    by (simp add: force_alert_def g Let_def split: option.splits list.splits)
  ultimately show ?thesis
    using f cache_fresh_kv_cong by metis
qed

lemma reachable_cache_fresh: "reachable w \<Longrightarrow> cache_fresh w"
proof (induction rule: reachable.induct)
  case start
  then show ?case by (simp add: cache_fresh_def kv_get_def)
next
  case (pass w hourOf e up hourIso)
  then show ?case by (simp add: cache_fresh_ingest)
next
  case (ask_forecast w url now)
  then show ?case by (simp add: cache_fresh_forecast)
next
  case (ask_timeseries w url)
  then show ?case by (simp add: cache_fresh_timeseries)
next
  case (forced w e q now)
  then show ?case by (simp add: cache_fresh_force_alert)
qed

text \<open>
  Claim C2, amended. \<^verbatim>\<open>getSeries\<close> returns the cached value whenever it is present
  and an array, and leaves the store as it is; it checks nothing else, and rebuilds only
  when the cache is absent or not an array. In every state the worker reaches from the
  empty namespace by passes and requests run one after the other, a cached array equals
  what a full rebuild from the persisted per-hour entries produces at that instant, so it
  is a suffix of it.
\<close>

theorem cache_served:
  "(kv_get SERIES_KEY w = Some (JSeries c) \<longrightarrow> getSeries w = (c, w)) \<and>
   (kv_get SERIES_KEY w \<notin> range (\<lambda>c. Some (JSeries c)) \<longrightarrow> getSeries w = rebuildSeries w) \<and>
   (reachable w \<and> kv_get SERIES_KEY w = Some (JSeries c) \<longrightarrow>
      c = fst (rebuildSeries w) \<and> suffix c (fst (rebuildSeries w)))"
proof -
  have "getSeries w = (c, w)" if "kv_get SERIES_KEY w = Some (JSeries c)"
    using that by (simp add: getSeries_def)
  moreover have "getSeries w = rebuildSeries w" if "kv_get SERIES_KEY w \<notin> range (\<lambda>c. Some (JSeries c))"
    using that by (auto simp: getSeries_def split: option.splits json.splits)
  moreover have "c = fst (rebuildSeries w) \<and> suffix c (fst (rebuildSeries w))"
    if "reachable w \<and> kv_get SERIES_KEY w = Some (JSeries c)"
    using reachable_cache_fresh[of w] that by (simp add: cache_fresh_def)
  ultimately show ?thesis by blast
qed

text \<open>
  Claim C2, as stated, fails on a store whose cache is stale (written by another client
  of the namespace, or by an overlapping pass): \<^verbatim>\<open>getSeries\<close> returns the cached
  array, which is no suffix of the rebuild, and discards nothing.
\<close>

theorem cache_served_counterexample:
  "getSeries store_stale = ([\<lparr>ts = ''2025-01-01T08:00:00Z'', pm25 = 30\<rparr>], store_stale) \<and>
   fst (rebuildSeries store_stale) = [\<lparr>ts = hour_10, pm25 = 48\<rparr>] \<and>
   \<not> suffix [\<lparr>ts = ''2025-01-01T08:00:00Z'', pm25 = 30\<rparr>] (fst (rebuildSeries store_stale))"
proof -
  have g: "getSeries store_stale = ([\<lparr>ts = ''2025-01-01T08:00:00Z'', pm25 = 30\<rparr>], store_stale)"
    by (simp add: getSeries_def kv_get_def SERIES_KEY_def store_stale_def)
  have r: "fst (rebuildSeries store_stale) = [\<lparr>ts = hour_10, pm25 = 48\<rparr>]"
    by code_simp
  show ?thesis
    unfolding r using g by (simp add: suffix_def hour_10_def)
qed

theorem cache_served_witness:
  "reachable store_negative \<and>
   getSeries store_negative = ([\<lparr>ts = hour_11, pm25 = - 5\<rparr>], store_negative) \<and>
   fst (rebuildSeries store_negative) = [\<lparr>ts = hour_11, pm25 = - 5\<rparr>]"
proof -
  have "reachable (snd (ingest Some env_default (upstream_value (- 5)) hour_11 empty_world))"
    using reachable.start by (intro reachable.pass) (simp add: empty_world_def)
  then have r: "reachable store_negative"
    by (simp add: ingest_reaches_store_negative)
  have k: "kv_get SERIES_KEY store_negative = Some (JSeries [\<lparr>ts = hour_11, pm25 = - 5\<rparr>])"
    by (simp add: kv_get_def SERIES_KEY_def store_negative_def)
  show ?thesis
    using cache_served[of store_negative "[\<lparr>ts = hour_11, pm25 = - 5\<rparr>]"] r k by simp
qed

end
